theory Spec2Isabelle
  imports Main "HOL-Library.AList"
begin

section \<open>Python values\<close>

text \<open>
  The key-value store of \<^verbatim>\<open>learning_observer/kvs.py\<close> handles arbitrary Python objects:
  \<^verbatim>\<open>set\<close> is handed whatever the caller passes and decides by \<^verbatim>\<open>json.dumps\<close> and an
  \<^verbatim>\<open>isinstance\<close> test what it accepts. A value is therefore modelled as a tree of the
  Python types the code can tell apart: the JSON scalars, lists, tuples (which
  \<^verbatim>\<open>json.dumps\<close> accepts and writes as arrays), dictionaries with their hashable keys, and
  \<open>PObject\<close>, an instance of a plain class (hashable, not subscriptable, not
  JSON-serializable). Floating-point numbers are left out of the model.
\<close>

datatype pykey = KNone | KBool bool | KInt int | KStr string | KTuple "pykey list"

datatype pyval =
    PNone
  | PBool bool
  | PInt int
  | PStr string
  | PList "pyval list"
  | PTuple "pyval list"
  | PDict "(pykey \<times> pyval) list"
  | PObject nat

type_synonym pydict = "(pykey \<times> pyval) list"

text \<open>
  The exceptions the code raises or lets through. \<open>KeyError\<close> carries the missing key.
  \<open>StartupCheck\<close> is the exception class of \<^verbatim>\<open>learning_observer.prestartup\<close>, the
  configuration error of the startup checks (the module is not among the sources); its
  message is kept as the format template and the arguments handed to \<^verbatim>\<open>str.format\<close>.
\<close>

datatype error =
    KeyError pyval
  | TypeError
  | ValueError
  | AssertionError string
  | StartupCheck string "pyval list"
  | ConnectionError
  | FileNotFoundError
  | JSONDecodeError
  | AttributeError

fun hashable :: "pyval \<Rightarrow> bool" where
  "hashable (PList xs) = False"
| "hashable (PDict d) = False"
| "hashable (PTuple xs) = list_all hashable xs"
| "hashable v = True"

text \<open>\<^verbatim>\<open>obj[name]\<close> for a string \<open>name\<close>: a dictionary looks the key up and raises
  \<^verbatim>\<open>KeyError\<close> when it is missing; every other value of the model raises \<^verbatim>\<open>TypeError\<close>
  (a list, a tuple and a string take integer indices only).\<close>

fun subscript :: "pyval \<Rightarrow> string \<Rightarrow> error + pyval" where
  "subscript (PDict d) name =
     (case map_of d (KStr name) of
        None \<Rightarrow> Inl (KeyError (PStr name))
      | Some v \<Rightarrow> Inr v)"
| "subscript v name = Inl TypeError"

section \<open>Backend selection at startup\<close>

datatype kvs_class = InMemoryKVS | EphemeralRedisKVS | PersistentRedisKVS

definition KVS_MAP :: "(string \<times> kvs_class) list" where
  "KVS_MAP =
     [(''stub'', InMemoryKVS),
      (''redis_ephemeral'', EphemeralRedisKVS),
      (''redis'', PersistentRedisKVS)]"

text \<open>\<^verbatim>\<open>KVS_MAP[t]\<close> and \<^verbatim>\<open>t not in KVS_MAP\<close>: both hash \<open>t\<close> first, so an unhashable
  \<open>t\<close> raises \<^verbatim>\<open>TypeError\<close>.\<close>

fun KVS_MAP_getitem :: "pyval \<Rightarrow> error + kvs_class" where
  "KVS_MAP_getitem (PStr s) =
     (case map_of KVS_MAP s of None \<Rightarrow> Inl (KeyError (PStr s)) | Some c \<Rightarrow> Inr c)"
| "KVS_MAP_getitem t = (if hashable t then Inl (KeyError t) else Inl TypeError)"

fun KVS_MAP_not_in :: "pyval \<Rightarrow> error + bool" where
  "KVS_MAP_not_in (PStr s) = Inr (s \<notin> set (map fst KVS_MAP))"
| "KVS_MAP_not_in t = (if hashable t then Inr True else Inl TypeError)"

definition no_kvs_msg :: string where
  "no_kvs_msg =
     ''No KVS configured. Please set kvs.type in settings.py'' @ [CHR 0x0A] @
     ''Look at example settings file to see what'' @ [CHR 0x27] @ ''s available.''"

definition unknown_kvs_msg :: string where
  "unknown_kvs_msg =
     ''Unknown KVS type: {}'' @ [CHR 0x0A] @
     ''Look at example settings file to see what'' @ [CHR 0x27] @ ''s available. '' @ [CHR 0x0A] @
     ''Suppported types: {}''"

definition misconfigured_kvs_msg :: string where
  "misconfigured_kvs_msg =
     ''KVS incorrectly configured. Please fix the error, and'' @ [CHR 0x0A] @
     ''then replace this with a more meaningful error message''"

text \<open>
  \<^verbatim>\<open>kvs_startup_check\<close> reads the global \<^verbatim>\<open>learning_observer.settings.settings\<close> (a
  dictionary) and assigns the module global \<^verbatim>\<open>KVS\<close>. The model takes the settings and the
  current binding of \<^verbatim>\<open>KVS\<close> and returns the outcome of the call together with the binding
  afterwards. \<open>kvs_type_lookup\<close> is the body of the \<^verbatim>\<open>try\<close>; \<open>kvs_startup_handler\<close> is the
  \<^verbatim>\<open>except KeyError\<close> clause, whose \<^verbatim>\<open>elif\<close> evaluates
  \<^verbatim>\<open>settings['kvs']['type']\<close> once more, outside any \<^verbatim>\<open>try\<close>.
\<close>

definition kvs_type_lookup :: "pydict \<Rightarrow> error + kvs_class" where
  "kvs_type_lookup settings =
     (case subscript (PDict settings) ''kvs'' of
        Inl e \<Rightarrow> Inl e
      | Inr sect \<Rightarrow>
          (case subscript sect ''type'' of
             Inl e \<Rightarrow> Inl e
           | Inr t \<Rightarrow> KVS_MAP_getitem t))"

definition kvs_startup_handler :: "pydict \<Rightarrow> error" where
  "kvs_startup_handler settings =
     (case map_of settings (KStr ''kvs'') of
        None \<Rightarrow> StartupCheck no_kvs_msg []
      | Some sect \<Rightarrow>
          (case subscript sect ''type'' of
             Inl e \<Rightarrow> e
           | Inr t \<Rightarrow>
               (case KVS_MAP_not_in t of
                  Inl e \<Rightarrow> e
                | Inr True \<Rightarrow>
                    StartupCheck unknown_kvs_msg [t, PList (map (PStr \<circ> fst) KVS_MAP)]
                | Inr False \<Rightarrow> StartupCheck misconfigured_kvs_msg [])))"

definition kvs_startup_check ::
  "pydict \<Rightarrow> kvs_class option \<Rightarrow> (error + bool) \<times> kvs_class option" where
  "kvs_startup_check settings KVS =
     (case kvs_type_lookup settings of
        Inr c \<Rightarrow> (Inr True, Some c)
      | Inl (KeyError k) \<Rightarrow> (Inl (kvs_startup_handler settings), KVS)
      | Inl e \<Rightarrow> (Inl e, KVS))"

text \<open>The constructors of the two Redis classes: an instance holds \<^verbatim>\<open>self.expire\<close>.
  \<^verbatim>\<open>EphemeralRedisKVS.__init__\<close> reads \<^verbatim>\<open>settings['kvs']['expiry']\<close>;
  \<^verbatim>\<open>PersistentRedisKVS.__init__\<close> passes \<^verbatim>\<open>None\<close>.\<close>

record RedisKVS =
  expire :: pyval

definition EphemeralRedisKVS_init :: "pydict \<Rightarrow> error + RedisKVS" where
  "EphemeralRedisKVS_init settings =
     (case subscript (PDict settings) ''kvs'' of
        Inl e \<Rightarrow> Inl e
      | Inr sect \<Rightarrow>
          (case subscript sect ''expiry'' of
             Inl e \<Rightarrow> Inl e
           | Inr x \<Rightarrow> Inr \<lparr>expire = x\<rparr>))"

definition PersistentRedisKVS_init :: "error + RedisKVS" where
  "PersistentRedisKVS_init = Inr \<lparr>expire = PNone\<rparr>"

section \<open>The object heap\<close>

text \<open>
  \<^verbatim>\<open>InMemoryKVS.set\<close> stores the object it is handed, not a copy, and
  \<^verbatim>\<open>InMemoryKVS.__getitem__\<close> answers with \<^verbatim>\<open>copy.deepcopy\<close> of what is stored. What a
  caller can do to the store through an object it holds therefore depends on which objects
  are shared, and the model keeps Python's objects in an explicit heap. \<open>None\<close>,
  booleans, integers and strings are immutable and carried as immediate values; a list, a
  tuple, a dictionary or a plain object lives in a heap cell and is referred to by its
  address \<open>HRef a\<close>. The heap is the list of its cells: the addresses in use are
  \<open>0 ..< length h\<close>, and a new object takes the address \<open>length h\<close>. Dictionary keys are
  hashable, hence immutable, and stay trees.
\<close>

datatype hval = HNone | HBool bool | HInt int | HStr string | HRef nat

datatype hobj =
    HList "hval list"
  | HTuple "hval list"
  | HDict "(pykey \<times> hval) list"
  | HObject nat

type_synonym heap = "hobj list"

fun obj_refs :: "hobj \<Rightarrow> hval list" where
  "obj_refs (HList xs) = xs"
| "obj_refs (HTuple xs) = xs"
| "obj_refs (HDict d) = map snd d"
| "obj_refs (HObject n) = []"

fun addr_of :: "hval \<Rightarrow> nat list" where
  "addr_of (HRef a) = [a]"
| "addr_of v = []"

definition succs :: "hobj \<Rightarrow> nat list" where
  "succs ob = concat (map addr_of (obj_refs ob))"



lemma unseen_decreases:
  "a < n \<Longrightarrow> a \<notin> seen \<Longrightarrow> card ({..<n} - seen) - Suc 0 < card ({..<n::nat} - seen)"
proof -
  assume "a < n" and "a \<notin> seen"
  then have "a \<in> {..<n} - seen" by simp
  then have "card ({..<n} - seen) \<noteq> 0"
    by (metis card_eq_0_iff empty_iff finite_Diff finite_lessThan)
  then show ?thesis by linarith
qed



text \<open>
  \<^verbatim>\<open>copy.deepcopy(v)\<close> builds new objects for the objects found in \<open>v\<close> and leaves the
  old ones alone; an object met twice is copied once (the memo), so sharing and cycles
  are kept. \<open>reach h v\<close> lists the cells found from \<open>v\<close>, depth first, each once, in the
  order \<^verbatim>\<open>deepcopy\<close> first meets them; the copy of the \<open>i\<close>-th of them is the new cell
  \<open>length h + i\<close>, holding the old cell's content with every reference renamed to the
  copy. Immediate values are returned as they are. (Python returns a tuple itself when
  nothing in it had to be copied; the model copies every tuple, which no mutation can
  tell apart.)
\<close>

function dfs :: "heap \<Rightarrow> nat list \<Rightarrow> nat list \<Rightarrow> nat list" where
  "dfs h [] vis = vis"
| "dfs h (a # todo) vis =
     (if a \<in> set vis \<or> \<not> a < length h then dfs h todo vis
      else dfs h (succs (h ! a) @ todo) (vis @ [a]))"
  by pat_completeness auto

termination dfs
  by (relation "measures [\<lambda>(h, todo, vis). card ({..<length h} - set vis),
                           \<lambda>(h, todo, vis). length todo]")
     (auto simp: unseen_decreases)

definition reach :: "heap \<Rightarrow> hval \<Rightarrow> nat list" where
  "reach h v = dfs h (addr_of v) []"

fun index_of :: "nat list \<Rightarrow> nat \<Rightarrow> nat" where
  "index_of [] x = 0"
| "index_of (y # ys) x = (if x = y then 0 else Suc (index_of ys x))"

fun rename_val :: "(nat \<Rightarrow> nat) \<Rightarrow> hval \<Rightarrow> hval" where
  "rename_val m (HRef a) = HRef (m a)"
| "rename_val m v = v"

fun rename_obj :: "(nat \<Rightarrow> nat) \<Rightarrow> hobj \<Rightarrow> hobj" where
  "rename_obj m (HList xs) = HList (map (rename_val m) xs)"
| "rename_obj m (HTuple xs) = HTuple (map (rename_val m) xs)"
| "rename_obj m (HDict d) = HDict (map (\<lambda>kv. (fst kv, rename_val m (snd kv))) d)"
| "rename_obj m (HObject n) = HObject n"

definition deepcopy :: "heap \<Rightarrow> hval \<Rightarrow> hval \<times> heap" where
  "deepcopy h v =
     (let rs = reach h v;
          m = (\<lambda>a. length h + index_of rs a)
      in (rename_val m v, h @ map (\<lambda>a. rename_obj m (h ! a)) rs))"

text \<open>Building the objects of a tree in the heap, children before their parent: what
  \<^verbatim>\<open>json.loads\<close> does with the document it has parsed.\<close>

fun alloc :: "pyval \<Rightarrow> heap \<Rightarrow> hval \<times> heap"
  and alloc_list :: "pyval list \<Rightarrow> heap \<Rightarrow> hval list \<times> heap"
  and alloc_items :: "(pykey \<times> pyval) list \<Rightarrow> heap \<Rightarrow> (pykey \<times> hval) list \<times> heap" where
  "alloc PNone h = (HNone, h)"
| "alloc (PBool b) h = (HBool b, h)"
| "alloc (PInt i) h = (HInt i, h)"
| "alloc (PStr s) h = (HStr s, h)"
| "alloc (PList xs) h = (case alloc_list xs h of (vs, h') \<Rightarrow> (HRef (length h'), h' @ [HList vs]))"
| "alloc (PTuple xs) h = (case alloc_list xs h of (vs, h') \<Rightarrow> (HRef (length h'), h' @ [HTuple vs]))"
| "alloc (PDict d) h = (case alloc_items d h of (kvs, h') \<Rightarrow> (HRef (length h'), h' @ [HDict kvs]))"
| "alloc (PObject n) h = (HRef (length h), h @ [HObject n])"
| "alloc_list [] h = ([], h)"
| "alloc_list (x # xs) h =
     (case alloc x h of (v, h') \<Rightarrow> (case alloc_list xs h' of (vs, h'') \<Rightarrow> (v # vs, h'')))"
| "alloc_items [] h = ([], h)"
| "alloc_items (kx # d) h =
     (case alloc (snd kx) h of (v, h') \<Rightarrow>
        (case alloc_items d h' of (kvs, h'') \<Rightarrow> ((fst kx, v) # kvs, h'')))"

section \<open>JSON documents\<close>

text \<open>
  \<^verbatim>\<open>json.dumps\<close> and \<^verbatim>\<open>json.loads\<close> belong to Python's standard library. A JSON text is
  represented by the document it spells: the model does not go down to characters,
  escapes and white space. An object keeps its members in the order written, and a name
  may occur twice (as in the text \<^verbatim>\<open>json.dumps({1: 0, "1": 0})\<close> produces).

  \<open>json_encode\<close> follows the encoder: \<open>None\<close>, booleans, integers and strings are written
  as they are; lists and tuples both become arrays; a dictionary becomes an object, its
  keys turned into strings (\<^verbatim>\<open>str\<close> as is, \<^verbatim>\<open>int\<close> in decimal, \<^verbatim>\<open>True\<close>, \<^verbatim>\<open>False\<close>,
  \<^verbatim>\<open>None\<close> as \<open>true\<close>, \<open>false\<close>, \<open>null\<close>; any other key raises \<^verbatim>\<open>TypeError\<close>); any other
  object raises \<^verbatim>\<open>TypeError\<close>; a container met again inside itself (\<open>markers\<close>, the
  containers being written) raises \<^verbatim>\<open>ValueError\<close>. The first error met, in writing
  order, is the one raised.
\<close>

datatype json =
    JNull
  | JBool bool
  | JInt int
  | JStr string
  | JArr "json list"
  | JObj "(string \<times> json) list"

fun collect :: "('e + 'a) list \<Rightarrow> 'e + 'a list" where
  "collect [] = Inr []"
| "collect (x # xs) =
     (case x of
        Inl e \<Rightarrow> Inl e
      | Inr y \<Rightarrow> (case collect xs of Inl e \<Rightarrow> Inl e | Inr ys \<Rightarrow> Inr (y # ys)))"

function digits :: "nat \<Rightarrow> string" where
  "digits n =
     (if n < 10 then [char_of (48 + n)] else digits (n div 10) @ [char_of (48 + n mod 10)])"
  by pat_completeness auto

termination digits
  by (relation "measure id") auto

definition int_str :: "int \<Rightarrow> string" where
  "int_str i = (if i < 0 then CHR ''-'' # digits (nat (- i)) else digits (nat i))"

fun json_key :: "pykey \<Rightarrow> error + string" where
  "json_key (KStr s) = Inr s"
| "json_key (KBool b) = Inr (if b then ''true'' else ''false'')"
| "json_key KNone = Inr ''null''"
| "json_key (KInt i) = Inr (int_str i)"
| "json_key (KTuple ks) = Inl TypeError"

definition json_member :: "error + string \<Rightarrow> error + json \<Rightarrow> error + string \<times> json" where
  "json_member k v =
     (case k of
        Inl e \<Rightarrow> Inl e
      | Inr name \<Rightarrow> (case v of Inl e \<Rightarrow> Inl e | Inr j \<Rightarrow> Inr (name, j)))"

definition json_wrap :: "('a \<Rightarrow> json) \<Rightarrow> error + 'a \<Rightarrow> error + json" where
  "json_wrap f r = (case r of Inl e \<Rightarrow> Inl e | Inr x \<Rightarrow> Inr (f x))"

function json_encode :: "heap \<Rightarrow> nat set \<Rightarrow> hval \<Rightarrow> error + json" where
  "json_encode h markers HNone = Inr JNull"
| "json_encode h markers (HBool b) = Inr (JBool b)"
| "json_encode h markers (HInt i) = Inr (JInt i)"
| "json_encode h markers (HStr s) = Inr (JStr s)"
| "json_encode h markers (HRef a) =
     (if \<not> a < length h then Inl TypeError
      else case h ! a of
          HObject n \<Rightarrow> Inl TypeError
        | HList xs \<Rightarrow>
            (if a \<in> markers then Inl ValueError
             else json_wrap JArr (collect (map (json_encode h (insert a markers)) xs)))
        | HTuple xs \<Rightarrow>
            (if a \<in> markers then Inl ValueError
             else json_wrap JArr (collect (map (json_encode h (insert a markers)) xs)))
        | HDict d \<Rightarrow>
            (if a \<in> markers then Inl ValueError
             else json_wrap JObj
               (collect (map (\<lambda>kv. json_member (json_key (fst kv))
                                      (json_encode h (insert a markers) (snd kv))) d))))"
  by pat_completeness auto

termination json_encode
  by (relation "measure (\<lambda>(h, markers, v). card ({..<length h} - markers))")
     (auto simp: unseen_decreases)

definition json_dumps :: "heap \<Rightarrow> hval \<Rightarrow> error + json" where
  "json_dumps h v = json_encode h {} v"

text \<open>The decoder builds lists from arrays and dictionaries from objects; of a name that
  occurs twice the last value is kept, at the place of the first.\<close>

fun dict_of_pairs :: "('k \<times> 'v) list \<Rightarrow> ('k \<times> 'v) list \<Rightarrow> ('k \<times> 'v) list" where
  "dict_of_pairs d [] = d"
| "dict_of_pairs d ((k, v) # ps) = dict_of_pairs (AList.update k v d) ps"

fun json_decode :: "json \<Rightarrow> pyval" where
  "json_decode JNull = PNone"
| "json_decode (JBool b) = PBool b"
| "json_decode (JInt i) = PInt i"
| "json_decode (JStr s) = PStr s"
| "json_decode (JArr xs) = PList (map json_decode xs)"
| "json_decode (JObj ms) =
     PDict (dict_of_pairs [] (map (\<lambda>m. (KStr (fst m), json_decode (snd m))) ms))"

text \<open>A string held by Redis or by a file either is the text of a JSON document or is not
  JSON at all; \<^verbatim>\<open>json.loads\<close> raises \<^verbatim>\<open>JSONDecodeError\<close> on the latter.\<close>

datatype content = JsonText json | NotJson string

definition json_loads :: "content \<Rightarrow> heap \<Rightarrow> error + hval \<times> heap" where
  "json_loads s h =
     (case s of
        NotJson t \<Rightarrow> Inl JSONDecodeError
      | JsonText j \<Rightarrow> Inr (alloc (json_decode j) h))"

section \<open>Deep equality\<close>




text \<open>The values JSON has a form of its own for: no tuple, no object, and dictionaries
  with string keys, each once.\<close>

fun str_key :: "pykey \<Rightarrow> bool" where
  "str_key (KStr s) = True"
| "str_key k = False"

fun json_native :: "pyval \<Rightarrow> bool" where
  "json_native (PList xs) = list_all json_native xs"
| "json_native (PDict d) =
     (distinct (map fst d) \<and> list_all (\<lambda>kv. str_key (fst kv) \<and> json_native (snd kv)) d)"
| "json_native (PTuple xs) = False"
| "json_native (PObject n) = False"
| "json_native v = True"

section \<open>The key-value store\<close>

text \<open>
  The state the store's methods read and write: the heap, the module global
  \<^verbatim>\<open>OBJECT_STORE\<close> (a dictionary from keys to the stored objects, in insertion order),
  the Redis server, and the files \<^verbatim>\<open>dump\<close> writes and \<^verbatim>\<open>load\<close> reads. A method takes the
  state and returns its outcome, \<open>Inl\<close> the exception raised or \<open>Inr\<close> the value returned,
  together with the state it leaves behind.

  The server holds under each key a string and the expiry the string was written with
  (\<open>db\<close>), and \<open>link\<close> says, for each coming attempt to connect, whether the server
  can be reached then; it can, once the list is used up. The model has no clock: an
  entry is readable from the moment it is written.
\<close>

record redis_server =
  link :: "bool list"
  db :: "(string \<times> content \<times> pyval) list"

record world =
  heap :: heap
  OBJECT_STORE :: "(string \<times> hval) list"
  redis :: redis_server
  files :: "(string \<times> content) list"

type_synonym 'a action = "world \<Rightarrow> (error + 'a) \<times> world"


subsection \<open>The in-memory backend\<close>

text \<open>
  An \<^verbatim>\<open>InMemoryKVS\<close> object has no attribute: \<open>self\<close> is its identity and nothing else.
  \<^verbatim>\<open>__getitem__\<close> is read with a string key, the only kind \<^verbatim>\<open>set\<close> lets into the table.
  \<^verbatim>\<open>set\<close> runs \<^verbatim>\<open>json.dumps(value)\<close> for its exceptions, then the \<^verbatim>\<open>assert\<close> on the key,
  then stores the reference.
\<close>

definition key_error :: error where
  "key_error = AssertionError ''KVS keys must be strings''"

definition InMemoryKVS_getitem :: "nat \<Rightarrow> string \<Rightarrow> hval action" where
  "InMemoryKVS_getitem self key w =
     (case deepcopy (heap w) (case map_of (OBJECT_STORE w) key of None \<Rightarrow> HNone | Some v \<Rightarrow> v) of
        (r, h') \<Rightarrow> (Inr r, w\<lparr>heap := h'\<rparr>))"

definition InMemoryKVS_set :: "nat \<Rightarrow> hval \<Rightarrow> hval \<Rightarrow> unit action" where
  "InMemoryKVS_set self key val w =
     (case json_dumps (heap w) val of
        Inl e \<Rightarrow> (Inl e, w)
      | Inr j \<Rightarrow>
          (case key of
             HStr k \<Rightarrow> (Inr (), w\<lparr>OBJECT_STORE := AList.update k val (OBJECT_STORE w)\<rparr>)
           | _ \<Rightarrow> (Inl key_error, w)))"

definition InMemoryKVS_keys :: "nat \<Rightarrow> string list action" where
  "InMemoryKVS_keys self w = (Inr (map fst (OBJECT_STORE w)), w)"

definition InMemoryKVS_clear :: "nat \<Rightarrow> unit action" where
  "InMemoryKVS_clear self w = (Inr (), w\<lparr>OBJECT_STORE := []\<rparr>)"

subsection \<open>The Redis backend\<close>

text \<open>
  Modelled from the spec: \<^verbatim>\<open>learning_observer.redis.connect\<close> and
  \<^verbatim>\<open>learning_observer.redis.connection\<close>, which are not among the sources. By the
  specification the connection is made on the first operation and reused afterwards,
  and a connection error reaches the caller. \<open>redis_connect\<close> takes the next entry of
  \<open>link\<close>: the call returns when the server can be reached and raises
  \<open>ConnectionError\<close> when it cannot. The commands of the client, \<^verbatim>\<open>get\<close>, \<^verbatim>\<open>set\<close>
  and \<^verbatim>\<open>keys("*")\<close>, are a lookup in \<open>db\<close>, an update of \<open>db\<close> and the list of its keys.

  The methods of \<^verbatim>\<open>_RedisKVS\<close> connect first, whatever they are given. \<^verbatim>\<open>set\<close> then
  runs \<^verbatim>\<open>json.dumps(value)\<close> for its exceptions and the \<^verbatim>\<open>assert\<close> on the key, and
  writes the document of the value with \<^verbatim>\<open>self.expire\<close>; \<^verbatim>\<open>__getitem__\<close> returns
  \<^verbatim>\<open>None\<close> when the server holds nothing under the key, and what \<^verbatim>\<open>json.loads\<close>
  makes of the stored string otherwise.
\<close>

definition redis_connect :: "redis_server \<Rightarrow> (error + unit) \<times> redis_server" where
  "redis_connect r =
     (case link r of
        [] \<Rightarrow> (Inr (), r)
      | up # later \<Rightarrow> (if up then Inr () else Inl ConnectionError, r\<lparr>link := later\<rparr>))"

definition RedisKVS_connect :: "RedisKVS \<Rightarrow> unit action" where
  "RedisKVS_connect self w =
     (case redis_connect (redis w) of (res, r) \<Rightarrow> (res, w\<lparr>redis := r\<rparr>))"

definition RedisKVS_getitem :: "RedisKVS \<Rightarrow> string \<Rightarrow> hval action" where
  "RedisKVS_getitem self key w =
     (case RedisKVS_connect self w of
        (Inl e, w1) \<Rightarrow> (Inl e, w1)
      | (Inr u, w1) \<Rightarrow>
          (case map_of (db (redis w1)) key of
             None \<Rightarrow> (Inr HNone, w1)
           | Some (item, ex) \<Rightarrow>
               (case json_loads item (heap w1) of
                  Inl e \<Rightarrow> (Inl e, w1)
                | Inr (v, h') \<Rightarrow> (Inr v, w1\<lparr>heap := h'\<rparr>))))"

definition RedisKVS_set :: "RedisKVS \<Rightarrow> hval \<Rightarrow> hval \<Rightarrow> unit action" where
  "RedisKVS_set self key val w =
     (case RedisKVS_connect self w of
        (Inl e, w1) \<Rightarrow> (Inl e, w1)
      | (Inr u, w1) \<Rightarrow>
          (case json_dumps (heap w1) val of
             Inl e \<Rightarrow> (Inl e, w1)
           | Inr j \<Rightarrow>
               (case key of
                  HStr k \<Rightarrow>
                    (Inr (), w1\<lparr>redis := (redis w1)
                       \<lparr>db := AList.update k (JsonText j, expire self) (db (redis w1))\<rparr>\<rparr>)
                | _ \<Rightarrow> (Inl key_error, w1))))"


subsection \<open>Bulk dump and load\<close>

text \<open>
  \<^verbatim>\<open>dump\<close> and \<^verbatim>\<open>load\<close> are methods of the base class \<^verbatim>\<open>_KVS\<close> and call
  \<^verbatim>\<open>self.keys()\<close>, \<^verbatim>\<open>self[key]\<close> and \<^verbatim>\<open>self.set(key, value)\<close> of whichever backend
  \<open>self\<close> is. \<open>dump_loop\<close> and \<open>load_loop\<close> are the two \<^verbatim>\<open>for\<close> loops; \<open>data\<close> is the
  address of the dictionary \<^verbatim>\<open>dump\<close> fills. \<^verbatim>\<open>json.dump\<close> writes the file piece by piece:
  when it raises, what the file holds is no JSON document.
\<close>

datatype kvs = Mem nat | Red RedisKVS


fun KVS_set :: "kvs \<Rightarrow> hval \<Rightarrow> hval \<Rightarrow> unit action" where
  "KVS_set (Mem self) = InMemoryKVS_set self"
| "KVS_set (Red self) = RedisKVS_set self"






fun key_tree :: "pykey \<Rightarrow> pyval" where
  "key_tree KNone = PNone"
| "key_tree (KBool b) = PBool b"
| "key_tree (KInt i) = PInt i"
| "key_tree (KStr s) = PStr s"
| "key_tree (KTuple ks) = PTuple (map key_tree ks)"

fun load_loop :: "kvs \<Rightarrow> (pykey \<times> hval) list \<Rightarrow> unit action" where
  "load_loop self [] w = (Inr (), w)"
| "load_loop self ((k, v) # items) w =
     (case alloc (key_tree k) (heap w) of
        (key, h1) \<Rightarrow>
          (case KVS_set self key v (w\<lparr>heap := h1\<rparr>) of
             (Inl e, w1) \<Rightarrow> (Inl e, w1)
           | (Inr u, w1) \<Rightarrow> load_loop self items w1))"

definition KVS_load :: "kvs \<Rightarrow> string \<Rightarrow> unit action" where
  "KVS_load self filename w =
     (case map_of (files w) filename of
        None \<Rightarrow> (Inl FileNotFoundError, w)
      | Some s \<Rightarrow>
          (case json_loads s (heap w) of
             Inl e \<Rightarrow> (Inl e, w)
           | Inr (data, h1) \<Rightarrow>
               (case data of
                  HRef a \<Rightarrow>
                    (case h1 ! a of
                       HDict items \<Rightarrow> load_loop self items (w\<lparr>heap := h1\<rparr>)
                     | _ \<Rightarrow> (Inl AttributeError, w\<lparr>heap := h1\<rparr>))
                | _ \<Rightarrow> (Inl AttributeError, w\<lparr>heap := h1\<rparr>))))"

section \<open>Notions for the properties\<close>



text \<open>The table a backend writes to, as \<open>set\<close> leaves it, and its keys.\<close>

fun table :: "kvs \<Rightarrow> world \<Rightarrow> (string \<times> hval) list + (string \<times> content \<times> pyval) list" where
  "table (Mem self) w = Inl (OBJECT_STORE w)"
| "table (Red self) w = Inr (db (redis w))"














text \<open>\<open>written self k v w\<close>: the table of the backend holds under \<open>k\<close> what \<^verbatim>\<open>set(k, v)\<close>
  puts there: in memory the object \<open>v\<close> itself, for Redis the document of \<open>v\<close> with the
  instance's expiry.\<close>

fun written :: "kvs \<Rightarrow> string \<Rightarrow> hval \<Rightarrow> world \<Rightarrow> bool" where
  "written (Mem self) k v w = (map_of (OBJECT_STORE w) k = Some v)"
| "written (Red self) k v w =
     (case json_dumps (heap w) v of
        Inl e \<Rightarrow> False
      | Inr j \<Rightarrow> map_of (db (redis w)) k = Some (JsonText j, expire self))"

section \<open>Properties of the startup check\<close>

lemma kvs_type_lookup_no_section:
  "map_of settings (KStr ''kvs'') = None \<Longrightarrow>
   kvs_type_lookup settings = Inl (KeyError (PStr ''kvs''))"
  by (simp add: kvs_type_lookup_def)

lemma kvs_type_lookup_type:
  "map_of settings (KStr ''kvs'') = Some (PDict sect) \<Longrightarrow>
   map_of sect (KStr ''type'') = Some t \<Longrightarrow>
   kvs_type_lookup settings = KVS_MAP_getitem t"
  by (simp add: kvs_type_lookup_def)

lemma KVS_MAP_unknown:
  assumes "hashable t" and "t \<notin> {PStr ''stub'', PStr ''redis_ephemeral'', PStr ''redis''}"
  shows "KVS_MAP_getitem t = Inl (KeyError t)" and "KVS_MAP_not_in t = Inr True"
  using assms by (cases t; simp add: KVS_MAP_def)+

text \<open>
  C3. The three configuration shapes of the startup validator. With no \<open>kvs\<close> section
  the check raises \<open>StartupCheck\<close> with the message telling the operator to set
  \<open>kvs.type\<close>, and leaves \<open>KVS\<close> as it was. With a \<open>kvs\<close> section whose \<open>type\<close> is a
  (hashable) value other than the three known names (\<open>bogus\<close>, say) it raises
  \<open>StartupCheck\<close> with the unknown-type message, formatted with that value and the list
  \<open>stub\<close>, \<open>redis_ephemeral\<close>, \<open>redis\<close>. With \<open>type = stub\<close> it returns \<open>True\<close> and binds
  \<open>KVS\<close> to the in-memory backend class.
\<close>

theorem kvs_startup_check_shapes:
  "(map_of settings (KStr ''kvs'') = None \<longrightarrow>
      kvs_startup_check settings KVS = (Inl (StartupCheck no_kvs_msg []), KVS))
   \<and> (map_of settings (KStr ''kvs'') = Some (PDict sect)
      \<and> map_of sect (KStr ''type'') = Some t \<and> hashable t
      \<and> t \<notin> {PStr ''stub'', PStr ''redis_ephemeral'', PStr ''redis''} \<longrightarrow>
      kvs_startup_check settings KVS =
        (Inl (StartupCheck unknown_kvs_msg
           [t, PList [PStr ''stub'', PStr ''redis_ephemeral'', PStr ''redis'']]), KVS))
   \<and> (map_of settings (KStr ''kvs'') = Some (PDict sect)
      \<and> map_of sect (KStr ''type'') = Some (PStr ''stub'') \<longrightarrow>
      kvs_startup_check settings KVS = (Inr True, Some InMemoryKVS))"
proof (intro conjI impI)
  assume "map_of settings (KStr ''kvs'') = None"
  then show "kvs_startup_check settings KVS = (Inl (StartupCheck no_kvs_msg []), KVS)"
    by (simp add: kvs_startup_check_def kvs_type_lookup_no_section kvs_startup_handler_def)
next
  assume a: "map_of settings (KStr ''kvs'') = Some (PDict sect)
      \<and> map_of sect (KStr ''type'') = Some t \<and> hashable t
      \<and> t \<notin> {PStr ''stub'', PStr ''redis_ephemeral'', PStr ''redis''}"
  then have l: "kvs_type_lookup settings = Inl (KeyError t)"
    by (simp add: kvs_type_lookup_type [of settings sect t] KVS_MAP_unknown(1))
  from a have n: "KVS_MAP_not_in t = Inr True"
    by (simp add: KVS_MAP_unknown(2))
  from a l n show "kvs_startup_check settings KVS =
        (Inl (StartupCheck unknown_kvs_msg
           [t, PList [PStr ''stub'', PStr ''redis_ephemeral'', PStr ''redis'']]), KVS)"
    by (simp add: kvs_startup_check_def kvs_startup_handler_def KVS_MAP_def)
next
  assume a: "map_of settings (KStr ''kvs'') = Some (PDict sect)
      \<and> map_of sect (KStr ''type'') = Some (PStr ''stub'')"
  then have "kvs_type_lookup settings = Inr InMemoryKVS"
    by (simp add: kvs_type_lookup_type [of settings sect "PStr ''stub''"] KVS_MAP_def)
  then show "kvs_startup_check settings KVS = (Inr True, Some InMemoryKVS)"
    by (simp add: kvs_startup_check_def)
qed

theorem kvs_startup_check_shapes_witness:
  "kvs_startup_check [] None = (Inl (StartupCheck no_kvs_msg []), None)
   \<and> kvs_startup_check [(KStr ''kvs'', PDict [(KStr ''type'', PStr ''bogus'')])] None =
       (Inl (StartupCheck unknown_kvs_msg
          [PStr ''bogus'', PList [PStr ''stub'', PStr ''redis_ephemeral'', PStr ''redis'']]), None)
   \<and> kvs_startup_check [(KStr ''kvs'', PDict [(KStr ''type'', PStr ''stub'')])] None =
       (Inr True, Some InMemoryKVS)"
  using kvs_startup_check_shapes [where settings = "[]" and KVS = None]
    kvs_startup_check_shapes [where settings = "[(KStr ''kvs'', PDict [(KStr ''type'', PStr ''bogus'')])]"
      and sect = "[(KStr ''type'', PStr ''bogus'')]" and t = "PStr ''bogus''" and KVS = None]
    kvs_startup_check_shapes [where settings = "[(KStr ''kvs'', PDict [(KStr ''type'', PStr ''stub'')])]"
      and sect = "[(KStr ''type'', PStr ''stub'')]" and KVS = None]
  by simp

text \<open>
  C4. A configuration with a \<open>kvs\<close> section that has no \<open>type\<close> field: the lookup in the
  \<^verbatim>\<open>try\<close> raises \<^verbatim>\<open>KeyError\<close>, and the \<^verbatim>\<open>elif\<close> of the handler repeats the lookup, so
  the call ends with the raw \<^verbatim>\<open>KeyError('type')\<close> and not with \<open>StartupCheck\<close>; the
  \<^verbatim>\<open>else\<close> branch written for this case is never reached.
\<close>

theorem kvs_startup_check_missing_type:
  "kvs_startup_check [(KStr ''kvs'', PDict [])] None = (Inl (KeyError (PStr ''type'')), None)"
  by (simp add: kvs_startup_check_def kvs_type_lookup_def kvs_startup_handler_def)

text \<open>
  C10. The startup check does not look at \<open>expiry\<close>. With \<open>kvs.type = redis_ephemeral\<close>
  and no \<open>kvs.expiry\<close> the check returns \<open>True\<close> and binds \<open>KVS\<close> to the ephemeral class;
  constructing an \<open>EphemeralRedisKVS\<close> from the same settings then raises
  \<^verbatim>\<open>KeyError('expiry')\<close>.
\<close>

theorem kvs_startup_check_ignores_expiry:
  "map_of settings (KStr ''kvs'') = Some (PDict sect) \<Longrightarrow>
   map_of sect (KStr ''type'') = Some (PStr ''redis_ephemeral'') \<Longrightarrow>
   map_of sect (KStr ''expiry'') = None \<Longrightarrow>
   kvs_startup_check settings KVS = (Inr True, Some EphemeralRedisKVS)
   \<and> EphemeralRedisKVS_init settings = Inl (KeyError (PStr ''expiry''))"
proof -
  assume a: "map_of settings (KStr ''kvs'') = Some (PDict sect)"
    and b: "map_of sect (KStr ''type'') = Some (PStr ''redis_ephemeral'')"
    and c: "map_of sect (KStr ''expiry'') = None"
  have "kvs_type_lookup settings = Inr EphemeralRedisKVS"
    using a b by (simp add: kvs_type_lookup_type [of settings sect] KVS_MAP_def)
  then have "kvs_startup_check settings KVS = (Inr True, Some EphemeralRedisKVS)"
    by (simp add: kvs_startup_check_def)
  moreover have "EphemeralRedisKVS_init settings = Inl (KeyError (PStr ''expiry''))"
    using a c by (simp add: EphemeralRedisKVS_init_def)
  ultimately show ?thesis by simp
qed

theorem kvs_startup_check_ignores_expiry_witness:
  "kvs_startup_check [(KStr ''kvs'', PDict [(KStr ''type'', PStr ''redis_ephemeral'')])] None =
     (Inr True, Some EphemeralRedisKVS)
   \<and> EphemeralRedisKVS_init [(KStr ''kvs'', PDict [(KStr ''type'', PStr ''redis_ephemeral'')])] =
     Inl (KeyError (PStr ''expiry''))"
  using kvs_startup_check_ignores_expiry
    [where settings = "[(KStr ''kvs'', PDict [(KStr ''type'', PStr ''redis_ephemeral'')])]"
      and sect = "[(KStr ''type'', PStr ''redis_ephemeral'')]" and KVS = None]
  by simp

section \<open>Cells found from a value\<close>














section \<open>Trees of related heaps\<close>








subsection \<open>Deep copies\<close>



lemma deepcopy_atom: "addr_of v = [] \<Longrightarrow> deepcopy h v = (v, h)"
  by (cases v) (auto simp: deepcopy_def reach_def)






section \<open>Documents and trees\<close>
















section \<open>Allocation\<close>




section \<open>Reading and writing one key\<close>

lemma map_of_update_same: "map_of (AList.update k v al) k = Some v"
  by (simp add: update_conv')

lemma connect_keeps:
  "db (redis (snd (RedisKVS_connect self w))) = db (redis w)"
  "heap (snd (RedisKVS_connect self w)) = heap w"
  "OBJECT_STORE (snd (RedisKVS_connect self w)) = OBJECT_STORE w"
  "files (snd (RedisKVS_connect self w)) = files w"
  by (auto simp: RedisKVS_connect_def redis_connect_def split: list.splits prod.splits)

text \<open>
  C6. Reading a key that is not in the table returns \<open>None\<close> and raises nothing, on both
  backends. In memory the state is left as it was. For Redis the server has to answer:
  when \<^verbatim>\<open>connect\<close> succeeds and the server holds nothing under the key, the result is
  \<open>None\<close>.
\<close>

theorem getitem_absent:
  "(map_of (OBJECT_STORE w) k = None \<longrightarrow> InMemoryKVS_getitem self k w = (Inr HNone, w))
   \<and> (map_of (db (redis w)) k = None \<and> fst (RedisKVS_connect rself w) = Inr () \<longrightarrow>
        RedisKVS_getitem rself k w = (Inr HNone, snd (RedisKVS_connect rself w)))"
proof (intro conjI impI)
  assume "map_of (OBJECT_STORE w) k = None"
  then show "InMemoryKVS_getitem self k w = (Inr HNone, w)"
    by (simp add: InMemoryKVS_getitem_def deepcopy_atom)
next
  assume a: "map_of (db (redis w)) k = None \<and> fst (RedisKVS_connect rself w) = Inr ()"
  obtain res w1 where c: "RedisKVS_connect rself w = (res, w1)" by (cases "RedisKVS_connect rself w")
  have "db (redis w1) = db (redis w)" using connect_keeps(1) [of rself w] c by simp
  then show "RedisKVS_getitem rself k w = (Inr HNone, snd (RedisKVS_connect rself w))"
    using a c by (simp add: RedisKVS_getitem_def)
qed

theorem getitem_absent_witness:
  "InMemoryKVS_getitem 0 ''hi'' \<lparr>heap = [], OBJECT_STORE = [], redis = \<lparr>link = [], db = []\<rparr>, files = []\<rparr>
     = (Inr HNone, \<lparr>heap = [], OBJECT_STORE = [], redis = \<lparr>link = [], db = []\<rparr>, files = []\<rparr>)
   \<and> RedisKVS_getitem \<lparr>expire = PInt 5\<rparr> ''hi''
        \<lparr>heap = [], OBJECT_STORE = [], redis = \<lparr>link = [True], db = []\<rparr>, files = []\<rparr>
     = (Inr HNone, \<lparr>heap = [], OBJECT_STORE = [], redis = \<lparr>link = [], db = []\<rparr>, files = []\<rparr>)"
  using getitem_absent [of "\<lparr>heap = [], OBJECT_STORE = [], redis = \<lparr>link = [], db = []\<rparr>, files = []\<rparr>"
      "''hi''" 0 "\<lparr>expire = PInt 5\<rparr>"]
    getitem_absent [of "\<lparr>heap = [], OBJECT_STORE = [], redis = \<lparr>link = [True], db = []\<rparr>, files = []\<rparr>"
      "''hi''" 0 "\<lparr>expire = PInt 5\<rparr>"]
  by (simp add: RedisKVS_connect_def redis_connect_def)

text \<open>
  C5. The methods of \<open>InMemoryKVS\<close> never look at \<open>self\<close>: they read and write the one
  module-level table, so in every state each method does the same through any two
  instances. After \<open>mk1.set("hi", 5); mk2.set("hi", 7)\<close>, \<open>mk1["hi"]\<close> is \<open>7\<close>. This
  holds from every state, the one \<open>clear()\<close> leaves included: after \<open>mk1.clear()\<close> a
  read through \<open>mk2\<close> finds nothing, and a write through \<open>mk2\<close> is read back through
  \<open>mk1\<close>.
\<close>

theorem in_memory_shared:
  "InMemoryKVS_getitem mk1 k w = InMemoryKVS_getitem mk2 k w
   \<and> InMemoryKVS_set mk1 key v w = InMemoryKVS_set mk2 key v w
   \<and> InMemoryKVS_keys mk1 w = InMemoryKVS_keys mk2 w
   \<and> InMemoryKVS_clear mk1 w = InMemoryKVS_clear mk2 w
   \<and> InMemoryKVS_getitem mk1 ''hi''
        (snd (InMemoryKVS_set mk2 (HStr ''hi'') (HInt 7)
          (snd (InMemoryKVS_set mk1 (HStr ''hi'') (HInt 5) w))))
      = (Inr (HInt 7), w\<lparr>OBJECT_STORE := AList.update ''hi'' (HInt 7) (OBJECT_STORE w)\<rparr>)
   \<and> InMemoryKVS_getitem mk2 k (snd (InMemoryKVS_clear mk1 w)) = (Inr HNone, w\<lparr>OBJECT_STORE := []\<rparr>)
   \<and> InMemoryKVS_getitem mk1 k
        (snd (InMemoryKVS_set mk2 (HStr k) (HInt i) (snd (InMemoryKVS_clear mk1 w))))
      = (Inr (HInt i), w\<lparr>OBJECT_STORE := [(k, HInt i)]\<rparr>)"
  by (simp add: InMemoryKVS_getitem_def InMemoryKVS_set_def InMemoryKVS_keys_def
      InMemoryKVS_clear_def json_dumps_def deepcopy_atom map_of_update_same)

lemma collect_Inl: "collect xs = Inl e \<Longrightarrow> Inl e \<in> set xs"
  by (induction xs) (auto split: sum.splits)

lemma json_wrap_Inl: "json_wrap f r = Inl e \<longleftrightarrow> r = Inl e"
  by (cases r) (auto simp: json_wrap_def)

lemma json_key_error: "json_key k = Inl e \<Longrightarrow> e = TypeError"
  by (cases k) auto

text \<open>The exceptions of \<^verbatim>\<open>json.dumps\<close>: \<^verbatim>\<open>TypeError\<close> for what is not serializable,
  \<^verbatim>\<open>ValueError\<close> for a circular reference.\<close>

lemma json_encode_error: "json_encode h M v = Inl e \<Longrightarrow> e = TypeError \<or> e = ValueError"
proof (induction h M v rule: json_encode.induct)
  case (5 h M a)
  show ?case
  proof (cases "a < length h")
    case False
    then show ?thesis using 5(4) by simp
  next
    case a_lt: True
    show ?thesis
    proof (cases "a \<in> M")
      case True
      then show ?thesis using 5(4) a_lt by (cases "h ! a") auto
    next
      case nm: False
      show ?thesis
      proof (cases "h ! a")
        case (HList xs)
        then have "Inl e \<in> set (map (json_encode h (insert a M)) xs)"
          using 5(4) a_lt nm by (auto simp: json_wrap_Inl dest: collect_Inl)
        then show ?thesis using 5(1) [OF _ HList nm] a_lt by auto
      next
        case (HTuple xs)
        then have "Inl e \<in> set (map (json_encode h (insert a M)) xs)"
          using 5(4) a_lt nm by (auto simp: json_wrap_Inl dest: collect_Inl)
        then show ?thesis using 5(2) [OF _ HTuple nm] a_lt by auto
      next
        case (HDict d)
        then have "Inl e \<in> set (map (\<lambda>kv. json_member (json_key (fst kv))
                      (json_encode h (insert a M) (snd kv))) d)"
          using 5(4) a_lt nm by (auto simp: json_wrap_Inl dest: collect_Inl)
        then obtain kv where kv: "kv \<in> set d"
          "json_member (json_key (fst kv)) (json_encode h (insert a M) (snd kv)) = Inl e"
          by auto
        then have "json_key (fst kv) = Inl e \<or> json_encode h (insert a M) (snd kv) = Inl e"
          by (auto simp: json_member_def split: sum.splits)
        then show ?thesis
          using 5(3) [OF _ HDict nm kv(1)] a_lt json_key_error by blast
      next
        case (HObject n)
        then show ?thesis using 5(4) a_lt by simp
      qed
    qed
  qed
qed auto

text \<open>
  C2 as stated fails on the order of the two checks. \<^verbatim>\<open>set(5, object())\<close>, a key that is
  no string with a value that is not serializable: were the key looked at first, the
  call would end with the key's error, as \<^verbatim>\<open>set(5, 1)\<close> does; it ends with the
  \<^verbatim>\<open>TypeError\<close> of \<^verbatim>\<open>json.dumps\<close>.
\<close>

theorem set_key_first_counterexample:
  "fst (InMemoryKVS_set 0 (HInt 5) (HInt 1)
     \<lparr>heap = [HObject 0], OBJECT_STORE = [], redis = \<lparr>link = [], db = []\<rparr>, files = []\<rparr>)
     = Inl key_error
   \<and> fst (InMemoryKVS_set 0 (HInt 5) (HRef 0)
     \<lparr>heap = [HObject 0], OBJECT_STORE = [], redis = \<lparr>link = [], db = []\<rparr>, files = []\<rparr>)
     = Inl TypeError
   \<and> json_dumps [HObject 0] (HRef 0) = Inl TypeError
   \<and> key_error \<noteq> TypeError"
  by (simp add: InMemoryKVS_set_def json_dumps_def key_error_def)

text \<open>
  C2, amended. \<^verbatim>\<open>set\<close> runs \<^verbatim>\<open>json.dumps\<close> on the value first and asserts that the key
  is a string second. A value \<^verbatim>\<open>json.dumps\<close> rejects makes \<^verbatim>\<open>set\<close> raise that exception
  (\<^verbatim>\<open>TypeError\<close>, or \<^verbatim>\<open>ValueError\<close> for a circular reference) whatever the key; a key that
  is no string, with a value \<^verbatim>\<open>json.dumps\<close> accepts, makes it raise the
  \<^verbatim>\<open>AssertionError\<close>. Either way nothing is written: in memory the state is the one
  before the call; for Redis, once \<^verbatim>\<open>connect\<close> has succeeded, the state is the one
  \<^verbatim>\<open>connect\<close> left, whose entries are those before the call.
\<close>

theorem set_rejects:
  "(json_dumps (heap w) val = Inl e \<longrightarrow>
      InMemoryKVS_set self key val w = (Inl e, w) \<and> (e = TypeError \<or> e = ValueError))
   \<and> (json_dumps (heap w) val = Inr j \<and> (\<forall>k. key \<noteq> HStr k) \<longrightarrow>
      InMemoryKVS_set self key val w = (Inl key_error, w))
   \<and> (fst (RedisKVS_connect rself w) = Inr () \<and> json_dumps (heap w) val = Inl e \<longrightarrow>
      RedisKVS_set rself key val w = (Inl e, snd (RedisKVS_connect rself w)))
   \<and> (fst (RedisKVS_connect rself w) = Inr () \<and> json_dumps (heap w) val = Inr j
        \<and> (\<forall>k. key \<noteq> HStr k) \<longrightarrow>
      RedisKVS_set rself key val w = (Inl key_error, snd (RedisKVS_connect rself w)))
   \<and> db (redis (snd (RedisKVS_connect rself w))) = db (redis w)"
proof (intro conjI impI)
  assume a: "json_dumps (heap w) val = Inl e"
  then show "InMemoryKVS_set self key val w = (Inl e, w)"
    by (simp add: InMemoryKVS_set_def)
  show "e = TypeError \<or> e = ValueError"
    using a json_encode_error by (simp add: json_dumps_def)
next
  assume "json_dumps (heap w) val = Inr j \<and> (\<forall>k. key \<noteq> HStr k)"
  then show "InMemoryKVS_set self key val w = (Inl key_error, w)"
    by (cases key) (simp_all add: InMemoryKVS_set_def)
next
  assume a: "fst (RedisKVS_connect rself w) = Inr () \<and> json_dumps (heap w) val = Inl e"
  obtain res w1 where c: "RedisKVS_connect rself w = (res, w1)"
    by (cases "RedisKVS_connect rself w")
  have "heap w1 = heap w" using connect_keeps(2) [of rself w] c by simp
  then show "RedisKVS_set rself key val w = (Inl e, snd (RedisKVS_connect rself w))"
    using a c by (simp add: RedisKVS_set_def)
next
  assume a: "fst (RedisKVS_connect rself w) = Inr () \<and> json_dumps (heap w) val = Inr j
        \<and> (\<forall>k. key \<noteq> HStr k)"
  obtain res w1 where c: "RedisKVS_connect rself w = (res, w1)"
    by (cases "RedisKVS_connect rself w")
  have "heap w1 = heap w" using connect_keeps(2) [of rself w] c by simp
  then show "RedisKVS_set rself key val w = (Inl key_error, snd (RedisKVS_connect rself w))"
    using a c by (cases key) (simp_all add: RedisKVS_set_def)
next
  show "db (redis (snd (RedisKVS_connect rself w))) = db (redis w)"
    by (rule connect_keeps(1))
qed

theorem set_rejects_witness:
  "InMemoryKVS_set 0 (HStr ''k'') (HRef 0)
     \<lparr>heap = [HObject 0], OBJECT_STORE = [(''k'', HInt 1)],
      redis = \<lparr>link = [True], db = [(''k'', JsonText (JInt 1), PNone)]\<rparr>, files = []\<rparr>
     = (Inl TypeError,
        \<lparr>heap = [HObject 0], OBJECT_STORE = [(''k'', HInt 1)],
         redis = \<lparr>link = [True], db = [(''k'', JsonText (JInt 1), PNone)]\<rparr>, files = []\<rparr>)
   \<and> InMemoryKVS_set 0 (HInt 5) (HInt 2)
     \<lparr>heap = [HObject 0], OBJECT_STORE = [(''k'', HInt 1)],
      redis = \<lparr>link = [True], db = [(''k'', JsonText (JInt 1), PNone)]\<rparr>, files = []\<rparr>
     = (Inl key_error,
        \<lparr>heap = [HObject 0], OBJECT_STORE = [(''k'', HInt 1)],
         redis = \<lparr>link = [True], db = [(''k'', JsonText (JInt 1), PNone)]\<rparr>, files = []\<rparr>)
   \<and> RedisKVS_set \<lparr>expire = PNone\<rparr> (HStr ''k'') (HRef 0)
     \<lparr>heap = [HObject 0], OBJECT_STORE = [(''k'', HInt 1)],
      redis = \<lparr>link = [True], db = [(''k'', JsonText (JInt 1), PNone)]\<rparr>, files = []\<rparr>
     = (Inl TypeError,
        \<lparr>heap = [HObject 0], OBJECT_STORE = [(''k'', HInt 1)],
         redis = \<lparr>link = [], db = [(''k'', JsonText (JInt 1), PNone)]\<rparr>, files = []\<rparr>)
   \<and> RedisKVS_set \<lparr>expire = PNone\<rparr> (HInt 5) (HInt 2)
     \<lparr>heap = [HObject 0], OBJECT_STORE = [(''k'', HInt 1)],
      redis = \<lparr>link = [True], db = [(''k'', JsonText (JInt 1), PNone)]\<rparr>, files = []\<rparr>
     = (Inl key_error,
        \<lparr>heap = [HObject 0], OBJECT_STORE = [(''k'', HInt 1)],
         redis = \<lparr>link = [], db = [(''k'', JsonText (JInt 1), PNone)]\<rparr>, files = []\<rparr>)"
  using set_rejects [of
      "\<lparr>heap = [HObject 0], OBJECT_STORE = [(''k'', HInt 1)],
        redis = \<lparr>link = [True], db = [(''k'', JsonText (JInt 1), PNone)]\<rparr>, files = []\<rparr>"
      "HRef 0" TypeError 0 "HStr ''k''" "JNull" "\<lparr>expire = PNone\<rparr>"]
    set_rejects [of
      "\<lparr>heap = [HObject 0], OBJECT_STORE = [(''k'', HInt 1)],
        redis = \<lparr>link = [True], db = [(''k'', JsonText (JInt 1), PNone)]\<rparr>, files = []\<rparr>"
      "HInt 2" TypeError 0 "HInt 5" "JInt 2" "\<lparr>expire = PNone\<rparr>"]
  by (simp add: json_dumps_def RedisKVS_connect_def redis_connect_def)








section \<open>Isolation of what a read returns\<close>




section \<open>Bulk dump and load\<close>

lemma load_loop_append:
  "load_loop self (pre @ rest) w =
     (case load_loop self pre w of
        (Inl e, w') \<Rightarrow> (Inl e, w')
      | (Inr u, w') \<Rightarrow> load_loop self rest w')"
  by (induction pre arbitrary: w) (auto split: prod.splits sum.splits)

lemma set_fail_table: "KVS_set self key v w = (Inl e, w2) \<Longrightarrow> table self w2 = table self w"
proof (cases self)
  case (Mem i)
  assume "KVS_set self key v w = (Inl e, w2)"
  then show ?thesis using Mem
    by (cases key) (auto simp: InMemoryKVS_set_def split: sum.splits)
next
  case (Red s)
  assume a: "KVS_set self key v w = (Inl e, w2)"
  obtain res w1 where c: "RedisKVS_connect s w = (res, w1)" by (cases "RedisKVS_connect s w")
  have "db (redis w1) = db (redis w)" using connect_keeps(1) [of s w] c by simp
  then show ?thesis using a Red c
    by (cases key; cases res) (auto simp: RedisKVS_set_def split: sum.splits)
qed

lemma alloc_key_str: "alloc (key_tree k) h = (HStr s, h1) \<Longrightarrow> k = KStr s"
  by (cases k) (auto split: prod.splits)

subsection \<open>Objects that denote by cells of their own\<close>









subsection \<open>What the encoder accepts and the decoder returns\<close>



lemma update_entries: "(a, b) \<in> set (AList.update k v al) \<Longrightarrow> (a, b) = (k, v) \<or> (a, b) \<in> set al"
  by (induction al) (auto split: if_splits)

lemma dict_of_pairs_entries: "set (dict_of_pairs d ps) \<subseteq> set d \<union> set ps"
proof (induction ps arbitrary: d)
  case Nil
  then show ?case by simp
next
  case (Cons p ps)
  obtain k v where p: "p = (k, v)" by (cases p)
  have "set (AList.update k v d) \<subseteq> insert (k, v) (set d)"
    using update_entries by fastforce
  then show ?case using Cons [of "AList.update k v d"] p by auto
qed

lemma dict_of_pairs_keys: "distinct (map fst d) \<Longrightarrow> distinct (map fst (dict_of_pairs d ps))"
proof (induction ps arbitrary: d)
  case Nil
  then show ?case by simp
next
  case (Cons p ps)
  then show ?case by (cases p) (simp add: distinct_update)
qed

lemma json_decode_native: "json_native (json_decode j)"
proof (induction j)
  case (JArr xs)
  then show ?case by (simp add: list_all_iff)
next
  case (JObj ms)
  let ?ps = "map (\<lambda>m. (KStr (fst m), json_decode (snd m))) ms"
  have "\<And>kv. kv \<in> set (dict_of_pairs [] ?ps) \<Longrightarrow> str_key (fst kv) \<and> json_native (snd kv)"
  proof -
    fix kv assume "kv \<in> set (dict_of_pairs [] ?ps)"
    then have "kv \<in> set ?ps" using dict_of_pairs_entries [of "[]" ?ps] by auto
    then obtain m where m: "m \<in> set ms" "kv = (KStr (fst m), json_decode (snd m))" by auto
    obtain a b where ab: "m = (a, b)" by (cases m)
    have "json_native (json_decode (snd m))" using JObj [of "(a, b)" b] m(1) ab by simp
    then show "str_key (fst kv) \<and> json_native (snd kv)" using m(2) by simp
  qed
  moreover have "distinct (map fst (dict_of_pairs [] ?ps))"
    by (rule dict_of_pairs_keys) simp
  ultimately show ?case by (simp add: list_all_iff)
qed auto



subsection \<open>Reads and writes, for either backend\<close>







subsection \<open>The loop of dump\<close>












subsection \<open>The loop of load\<close>


lemma alloc_items_keys: "alloc_items d h = (kvs, h') \<Longrightarrow> map fst kvs = map fst d"
  by (induction d arbitrary: h kvs h') (auto split: prod.splits)



subsection \<open>Dump followed by load\<close>









subsection \<open>A load that fails part way\<close>

lemma set_ok_written:
  assumes "KVS_set self key v w = (Inr (), w')"
  shows "\<exists>s. key = HStr s \<and> heap w' = heap w \<and> written self s v w'
           \<and> (\<forall>s' v'. s' \<noteq> s \<longrightarrow> written self s' v' w \<longrightarrow> written self s' v' w')"
proof (cases self)
  case (Mem i)
  then show ?thesis using assms
    by (cases key) (auto simp: InMemoryKVS_set_def update_conv' split: sum.splits)
next
  case (Red r)
  obtain res w1 where c: "RedisKVS_connect r w = (res, w1)" by (cases "RedisKVS_connect r w")
  have k: "db (redis w1) = db (redis w)" "heap w1 = heap w"
    using connect_keeps(1,2) [of r w] c by simp_all
  show ?thesis using assms Red c k
    by (cases key; cases res)
       (auto simp: RedisKVS_set_def update_conv' split: sum.splits)
qed

lemma set_fail_heap: "KVS_set self key v w = (Inl e, w2) \<Longrightarrow> heap w2 = heap w"
proof (cases self)
  case (Mem i)
  assume "KVS_set self key v w = (Inl e, w2)"
  then show ?thesis using Mem
    by (cases key) (auto simp: InMemoryKVS_set_def split: sum.splits)
next
  case (Red s)
  assume a: "KVS_set self key v w = (Inl e, w2)"
  obtain res w1 where c: "RedisKVS_connect s w = (res, w1)" by (cases "RedisKVS_connect s w")
  have "heap w1 = heap w" using connect_keeps(2) [of s w] c by simp
  then show ?thesis using a Red c
    by (cases key; cases res) (auto simp: RedisKVS_set_def split: sum.splits)
qed

lemma written_cong:
  "table self w' = table self w \<Longrightarrow> heap w' = heap w \<Longrightarrow> written self k v w' = written self k v w"
  by (cases self) (auto split: sum.splits)

lemma load_loop_written:
  "load_loop self pre w = (Inr (), w1) \<Longrightarrow> distinct (map fst pre) \<Longrightarrow>
   heap w1 = heap w
   \<and> (\<forall>kv \<in> set pre. \<exists>s. fst kv = KStr s \<and> written self s (snd kv) w1)
   \<and> (\<forall>s v. KStr s \<notin> set (map fst pre) \<longrightarrow> written self s v w \<longrightarrow> written self s v w1)"
proof (induction pre arbitrary: w)
  case Nil
  then show ?case by simp
next
  case (Cons p pre)
  obtain k v where p: "p = (k, v)" by (cases p)
  obtain key h1 where al: "alloc (key_tree k) (heap w) = (key, h1)"
    by (cases "alloc (key_tree k) (heap w)")
  obtain res w' where s: "KVS_set self key v (w\<lparr>heap := h1\<rparr>) = (res, w')"
    by (cases "KVS_set self key v (w\<lparr>heap := h1\<rparr>)")
  have res: "res = Inr ()" and rest: "load_loop self pre w' = (Inr (), w1)"
    using Cons.prems(1) p al s by (cases res; simp)+
  obtain s' where s': "key = HStr s'" "heap w' = h1" "written self s' v w'"
    "\<And>s'' v'. s'' \<noteq> s' \<Longrightarrow> written self s'' v' (w\<lparr>heap := h1\<rparr>) \<Longrightarrow> written self s'' v' w'"
    using set_ok_written [of self key v "w\<lparr>heap := h1\<rparr>" w'] s res by auto
  have k: "k = KStr s'" using al s'(1) alloc_key_str by blast
  then have h1: "h1 = heap w" using al by simp
  have same: "written self s'' v' (w\<lparr>heap := h1\<rparr>) = written self s'' v' w" for s'' v'
    by (rule written_cong) (cases self; simp add: h1)+
  have d: "distinct (map fst pre)" "KStr s' \<notin> set (map fst pre)"
    using Cons.prems(2) p k by auto
  have ih: "heap w1 = heap w'"
    "\<forall>kv \<in> set pre. \<exists>s. fst kv = KStr s \<and> written self s (snd kv) w1"
    "\<forall>s v. KStr s \<notin> set (map fst pre) \<longrightarrow> written self s v w' \<longrightarrow> written self s v w1"
    using Cons.IH [OF rest d(1)] by auto
  have "written self s' v w1" using ih(3) d(2) s'(3) by blast
  moreover have "\<forall>s v. KStr s \<notin> set (map fst (p # pre)) \<longrightarrow> written self s v w
      \<longrightarrow> written self s v w1"
    using ih(3) s'(4) same p k by auto
  ultimately show ?case using ih(1,2) s'(2) h1 p k by auto
qed

lemma alloc_dict_cell:
  assumes "alloc t h = (HRef a, h0)" and "h0 ! a = HDict items"
  shows "\<exists>d. t = PDict d \<and> map fst items = map fst d"
proof (cases t)
  case (PList xs)
  then show ?thesis using assms by (auto split: prod.splits)
next
  case (PTuple xs)
  then show ?thesis using assms by (auto split: prod.splits)
next
  case (PDict d)
  obtain kvs h1 where al: "alloc_items d h = (kvs, h1)" by (cases "alloc_items d h")
  then have "items = kvs" using assms PDict by auto
  then show ?thesis using PDict alloc_items_keys [OF al] by simp
next
  case (PObject n)
  then show ?thesis using assms by auto
qed (use assms in auto)

text \<open>
  C9. \<^verbatim>\<open>load\<close> parses the file into a dictionary and calls \<^verbatim>\<open>set\<close> once per entry, in
  order. When the entries before \<open>(k, v)\<close> have been set and \<^verbatim>\<open>set\<close> raises on \<open>(k, v)\<close>,
  \<^verbatim>\<open>load\<close> ends with that exception in the state the failed call left: the table is the
  one the earlier entries produced, each of them is in it as \<^verbatim>\<open>set\<close> wrote it, and no
  later entry is processed.
\<close>

theorem load_partial_write:
  "map_of (files w) filename = Some (JsonText j) \<Longrightarrow>
   alloc (json_decode j) (heap w) = (HRef a, h0) \<Longrightarrow>
   h0 ! a = HDict (pre @ (k, v) # post) \<Longrightarrow>
   load_loop self pre (w\<lparr>heap := h0\<rparr>) = (Inr (), w1) \<Longrightarrow>
   alloc (key_tree k) (heap w1) = (key, h1) \<Longrightarrow>
   KVS_set self key v (w1\<lparr>heap := h1\<rparr>) = (Inl e, w2) \<Longrightarrow>
   KVS_load self filename w = (Inl e, w2)
   \<and> table self w2 = table self w1
   \<and> (\<forall>kv \<in> set pre. \<exists>s. fst kv = KStr s \<and> written self s (snd kv) w2)"
proof -
  assume f: "map_of (files w) filename = Some (JsonText j)"
    and al: "alloc (json_decode j) (heap w) = (HRef a, h0)"
    and items: "h0 ! a = HDict (pre @ (k, v) # post)"
    and pre: "load_loop self pre (w\<lparr>heap := h0\<rparr>) = (Inr (), w1)"
    and key: "alloc (key_tree k) (heap w1) = (key, h1)"
    and fail: "KVS_set self key v (w1\<lparr>heap := h1\<rparr>) = (Inl e, w2)"
  have "load_loop self (pre @ (k, v) # post) (w\<lparr>heap := h0\<rparr>) = (Inl e, w2)"
    using pre key fail by (simp add: load_loop_append)
  then have 1: "KVS_load self filename w = (Inl e, w2)"
    using f al items by (simp add: KVS_load_def json_loads_def)
  have "table self w2 = table self (w1\<lparr>heap := h1\<rparr>)"
    using fail by (rule set_fail_table)
  then have 2: "table self w2 = table self w1"
    by (cases self) simp_all
  obtain d where d: "json_decode j = PDict d" "map fst (pre @ (k, v) # post) = map fst d"
    using alloc_dict_cell [OF al items] by blast
  have nat: "json_native (PDict d)" using json_decode_native [of j] d(1) by simp
  then have dist: "distinct (map fst pre)" using d(2) [symmetric] by simp
  have "str_key k"
  proof -
    have "k \<in> set (map fst d)" using d(2) [symmetric] by simp
    then show ?thesis using nat by (auto simp: list_all_iff)
  qed
  then obtain s where s: "k = KStr s" by (cases k) auto
  have h1: "h1 = heap w1" using key s by simp
  have "heap w2 = heap w1" using set_fail_heap [OF fail] h1 by simp
  then have "written self s' v' w2 = written self s' v' w1" for s' v'
    using 2 by (rule written_cong [rotated])
  then have 3: "\<forall>kv \<in> set pre. \<exists>s. fst kv = KStr s \<and> written self s (snd kv) w2"
    using load_loop_written [OF pre dist] by simp
  show ?thesis using 1 2 3 by simp
qed

theorem load_partial_write_witness:
  "KVS_load (Red \<lparr>expire = PNone\<rparr>) ''f''
     \<lparr>heap = [], OBJECT_STORE = [], redis = \<lparr>link = [True, False], db = []\<rparr>,
      files = [(''f'', JsonText (JObj [(''a'', JInt 1), (''b'', JInt 2), (''c'', JInt 3)]))]\<rparr>
     = (Inl ConnectionError,
        \<lparr>heap = [HDict [(KStr ''a'', HInt 1), (KStr ''b'', HInt 2), (KStr ''c'', HInt 3)]],
         OBJECT_STORE = [],
         redis = \<lparr>link = [], db = [(''a'', JsonText (JInt 1), PNone)]\<rparr>,
         files = [(''f'', JsonText (JObj [(''a'', JInt 1), (''b'', JInt 2), (''c'', JInt 3)]))]\<rparr>)"
proof -
  let ?fs = "[(''f'', JsonText (JObj [(''a'', JInt 1), (''b'', JInt 2), (''c'', JInt 3)]))]"
  let ?h = "[HDict [(KStr ''a'', HInt 1), (KStr ''b'', HInt 2), (KStr ''c'', HInt 3)]]"
  let ?w = "\<lparr>heap = [], OBJECT_STORE = [], redis = \<lparr>link = [True, False], db = []\<rparr>, files = ?fs\<rparr>"
  let ?w1 = "\<lparr>heap = ?h, OBJECT_STORE = [],
              redis = \<lparr>link = [False], db = [(''a'', JsonText (JInt 1), PNone)]\<rparr>, files = ?fs\<rparr>"
  let ?w2 = "\<lparr>heap = ?h, OBJECT_STORE = [],
              redis = \<lparr>link = [], db = [(''a'', JsonText (JInt 1), PNone)]\<rparr>, files = ?fs\<rparr>"
  have f: "map_of (files ?w) ''f'' = Some (JsonText (JObj [(''a'', JInt 1), (''b'', JInt 2), (''c'', JInt 3)]))"
    by simp
  have al: "alloc (json_decode (JObj [(''a'', JInt 1), (''b'', JInt 2), (''c'', JInt 3)])) (heap ?w)
      = (HRef 0, ?h)"
    by simp
  have items: "?h ! 0 = HDict ([(KStr ''a'', HInt 1)] @ (KStr ''b'', HInt 2) # [(KStr ''c'', HInt 3)])"
    by simp
  have pre: "load_loop (Red \<lparr>expire = PNone\<rparr>) [(KStr ''a'', HInt 1)] (?w\<lparr>heap := ?h\<rparr>) = (Inr (), ?w1)"
    by (simp add: RedisKVS_set_def RedisKVS_connect_def redis_connect_def json_dumps_def)
  have key: "alloc (key_tree (KStr ''b'')) (heap ?w1) = (HStr ''b'', ?h)"
    by simp
  have fail: "KVS_set (Red \<lparr>expire = PNone\<rparr>) (HStr ''b'') (HInt 2) (?w1\<lparr>heap := ?h\<rparr>)
      = (Inl ConnectionError, ?w2)"
    by (simp add: RedisKVS_set_def RedisKVS_connect_def redis_connect_def)
  show ?thesis
    using load_partial_write [OF f al items pre key fail] by simp
qed

end
